theory Spec2Isabelle
  imports Main "HOL-Library.Word"
begin

unbundle bit_operations_syntax

section \<open>Data model of ziso.cpp\<close>

text \<open>
  The program under study is \<^verbatim>\<open>src/ziso.cpp\<close>. Its header \<^verbatim>\<open>ziso.h\<close> (the
  declarations of \<^verbatim>\<open>opt\<close> and \<^verbatim>\<open>zheader\<close>, the table
  \<^verbatim>\<open>lz4_compression_level\<close>) and the LZ4 library are not part of the sources at
  hand. The records below list the fields that ziso.cpp reads and writes; the two LZ4
  entry points and the table are parameters of the model.
\<close>

type_synonym byte = "8 word"
type_synonym u8 = "8 word"
type_synonym u32 = "32 word"
type_synonym u64 = "64 word"

record opt =
  inputFile :: string
  outputFile :: string
  compress :: bool
  overwrite :: bool
  keepOutput :: bool
  lz4hc :: bool
  compressionLevel :: u8
  blockSize :: u32

record zheader =
  uncompressedSize :: u64
  hdrBlockSize :: u32
  indexShift :: u8

text \<open>
  An LZ4 entry point \<^verbatim>\<open>int f(const char *src, char *dst, int srcSize,
  int dstCapacity, int level)\<close>: from the source buffer and the three integers it gives
  its return value and the bytes it leaves at the start of the destination buffer.
  Nothing is assumed about either. \<open>overlay\<close> puts such bytes over a buffer, which
  keeps its size.
\<close>

type_synonym lz4_fn = "byte list \<Rightarrow> int \<Rightarrow> int \<Rightarrow> int \<Rightarrow> int \<times> byte list"

record lz4 =
  LZ4_compress_HC :: lz4_fn
  LZ4_compress_fast :: lz4_fn
  lz4_compression_level :: "int \<Rightarrow> int"

definition overlay :: "byte list \<Rightarrow> byte list \<Rightarrow> byte list" where
  "overlay w buf = take (length buf) (w @ drop (length w) buf)"

section \<open>Offset quantizer\<close>

text \<open>
  \<^verbatim>\<open>uint32_t pos_to_index(uint64_t &filePosition, uint8_t shift, bool uncompressed)\<close>.
  The result pairs the returned index entry with the value written back through
  \<^verbatim>\<open>filePosition\<close>. \<^verbatim>\<open>indexPosition\<close> is a \<^verbatim>\<open>uint32_t\<close>, so
  \<^verbatim>\<open>filePosition >> shift\<close> is truncated to 32 bits when it is stored, and
  \<^verbatim>\<open>indexPosition << shift\<close> is a 32-bit shift whose result is widened to 64 bits
  only afterwards. Shift counts of 32 and more are undefined in C; \<^verbatim>\<open>main\<close>
  assigns the header field no value above 4.
\<close>

definition pos_to_index :: "u64 \<Rightarrow> u8 \<Rightarrow> bool \<Rightarrow> u32 \<times> u64" where
  "pos_to_index filePosition shift uncompressed =
     (let indexPosition0 = (ucast (drop_bit (unat shift) filePosition) :: u32);
          newFilePosition0 = (ucast (push_bit (unat shift) indexPosition0 :: u32) :: u64);
          indexPosition1 =
            (if filePosition > newFilePosition0 then indexPosition0 + 1 else indexPosition0);
          newFilePosition =
            (if filePosition > newFilePosition0
             then (ucast (push_bit (unat shift) indexPosition1 :: u32) :: u64)
             else newFilePosition0);
          indexPosition = indexPosition1 OR (if uncompressed then 0x80000000 else 0)
      in (indexPosition, newFilePosition))"

text \<open>
  \<^verbatim>\<open>uint64_t index_to_pos(uint32_t indexData, uint8_t shift, bool &uncompressed)\<close>:
  the returned position and the flag written through \<^verbatim>\<open>uncompressed\<close>. The
  shift is again done on 32 bits.
\<close>

definition index_to_pos :: "u32 \<Rightarrow> u8 \<Rightarrow> u64 \<times> bool" where
  "index_to_pos indexData shift =
     ((ucast (push_bit (unat shift) (indexData AND 0x7FFFFFFF) :: u32) :: u64),
      indexData AND 0x80000000 \<noteq> 0)"

section \<open>Block compressor\<close>

text \<open>
  \<open>lz4_call\<close> is the call of the library in the first lines of
  \<^verbatim>\<open>compress_block\<close>; \<^verbatim>\<open>outSize\<close> is its return value converted to
  \<^verbatim>\<open>uint32_t\<close>.
  \<^verbatim>\<open>compress_block\<close> returns its \<^verbatim>\<open>uint32_t\<close> result, the value of the
  reference parameter \<^verbatim>\<open>uncompressed\<close> on return (unchanged on the failure path)
  and the destination buffer on return. \<^verbatim>\<open>memcpy(dst, src, srcSize)\<close> replaces the
  first \<^verbatim>\<open>srcSize\<close> bytes of the destination; the caller's buffers hold at least
  \<^verbatim>\<open>srcSize\<close> bytes each on that path.
\<close>

definition lz4_call :: "lz4 \<Rightarrow> byte list \<Rightarrow> u32 \<Rightarrow> u32 \<Rightarrow> opt \<Rightarrow> int \<times> byte list" where
  "lz4_call codec src srcSize dstSize settings =
     (if lz4hc settings
      then LZ4_compress_HC codec src (sint srcSize) (sint dstSize)
             (uint (compressionLevel settings))
      else LZ4_compress_fast codec src (sint srcSize) (sint dstSize)
             (lz4_compression_level codec (uint (compressionLevel settings) - 1)))"

definition compress_block ::
  "lz4 \<Rightarrow> byte list \<Rightarrow> u32 \<Rightarrow> byte list \<Rightarrow> u32 \<Rightarrow> bool \<Rightarrow> opt \<Rightarrow> u32 \<times> bool \<times> byte list" where
  "compress_block codec src srcSize dst dstSize uncompressed settings =
     (let (r, w) = lz4_call codec src srcSize dstSize settings;
          dst1 = overlay w dst;
          outSize = (word_of_int r :: u32)
      in if outSize = 0 \<or> outSize > srcSize
         then (if dstSize < srcSize
               then (0, uncompressed, dst1)
               else (srcSize, True, overlay (take (unat srcSize) src) dst1))
         else (outSize, False, dst1))"

section \<open>Option parsing\<close>

text \<open>
  \<^verbatim>\<open>getopt_long\<close> is a library routine: the model starts from the sequence of
  options it reports. For \<^verbatim>\<open>-c\<close> and \<^verbatim>\<open>-b\<close> the option carries what
  \<^verbatim>\<open>std::stoi(optarg)\<close> does: \<open>Some v\<close> when it returns the \<^verbatim>\<open>int\<close> \<open>v\<close>,
  \<open>None\<close> when it throws. \<open>Opt_h\<close> stands for both \<^verbatim>\<open>'h'\<close> and \<^verbatim>\<open>'?'\<close>.
\<close>

datatype cli_opt =
  Opt_i string | Opt_o string | Opt_c "int option" | Opt_l | Opt_b "int option"
  | Opt_f | Opt_k | Opt_h

text \<open>
  \<^verbatim>\<open>int get_options(int argc, char **argv, opt &options)\<close>: the return value and
  the options as left behind, also on an early return. \<^verbatim>\<open>temp_argument\<close> is a
  \<^verbatim>\<open>uint64_t\<close>, so the \<^verbatim>\<open>int\<close> from \<^verbatim>\<open>stoi\<close> is converted modulo
  \<open>2 ^ 64\<close>; both stores go through a cast to \<^verbatim>\<open>uint8_t\<close>.
\<close>

fun get_options :: "cli_opt list \<Rightarrow> opt \<Rightarrow> int \<times> opt" where
  "get_options [] options = (0, options)"
| "get_options (Opt_i a # rest) options = get_options rest (options\<lparr>inputFile := a\<rparr>)"
| "get_options (Opt_o a # rest) options = get_options rest (options\<lparr>outputFile := a\<rparr>)"
| "get_options (Opt_c r # rest) options =
     (case r of
        None \<Rightarrow> (1, options)
      | Some v \<Rightarrow>
          (let temp_argument = (word_of_int v :: u64)
           in if temp_argument < 1 \<or> temp_argument > 12 then (1, options)
              else get_options rest
                     (options\<lparr>compressionLevel := (ucast temp_argument :: u8)\<rparr>)))"
| "get_options (Opt_l # rest) options = get_options rest (options\<lparr>lz4hc := True\<rparr>)"
| "get_options (Opt_b r # rest) options =
     (case r of
        None \<Rightarrow> (1, options)
      | Some v \<Rightarrow>
          (let temp_argument = (word_of_int v :: u64)
           in if temp_argument = 0 \<or> temp_argument < 512 then (1, options)
              else get_options rest
                     (options\<lparr>blockSize := ucast (ucast temp_argument :: u8)\<rparr>)))"
| "get_options (Opt_f # rest) options = get_options rest (options\<lparr>overwrite := True\<rparr>)"
| "get_options (Opt_k # rest) options = get_options rest (options\<lparr>keepOutput := True\<rparr>)"
| "get_options (Opt_h # rest) options = (0, options)"

text \<open>
  Modelled from the spec: the default member values of \<^verbatim>\<open>opt\<close> are declared in
  ziso.h, which is absent. The help text of ziso.cpp gives compression level 12 and
  block size 2048; compression is the default mode and the three switches are off.
\<close>

definition default_opt :: opt where
  "default_opt =
     \<lparr>inputFile = [], outputFile = [], compress = True, overwrite = False,
      keepOutput = False, lz4hc = False, compressionLevel = 12, blockSize = 2048\<rparr>"

section \<open>Number of blocks\<close>

text \<open>
  \<^verbatim>\<open>blocksNumber = ceil((float)inputSize / settings.blockSize) + 1\<close> is computed in
  IEEE-754 binary32, whose significand has 24 bits, with rounding to nearest, ties to
  even. A binary32 value is written here as a pair \<open>(m, k)\<close> that stands for
  \<open>m * 2 ^ k\<close>. All values that occur are between \<open>2 ^ - 32\<close> and \<open>2 ^ 64\<close>, far
  inside the range of normal numbers.
\<close>

fun bit_length :: "nat \<Rightarrow> nat" where
  "bit_length n = (if n = 0 then 0 else Suc (bit_length (n div 2)))"

declare bit_length.simps [simp del]

text \<open>The quotient \<open>n / d\<close> rounded to the nearest integer, a tie to the even one.\<close>

definition rne :: "nat \<Rightarrow> nat \<Rightarrow> nat" where
  "rne n d =
     (let q = n div d; r = n mod d
      in if 2 * r < d then q
         else if d < 2 * r then q + 1
         else if even q then q else q + 1)"

text \<open>The binary32 value nearest to the rational \<open>n / d\<close>, for \<open>n > 0\<close> and \<open>d > 0\<close>.\<close>

definition float_round :: "nat \<Rightarrow> nat \<Rightarrow> nat \<times> int" where
  "float_round n d =
     (let e = int (bit_length n) - int (bit_length d)
              - (if n * 2 ^ bit_length d < d * 2 ^ bit_length n then 1 else 0);
          k = e - 23
      in if 0 \<le> k then (rne n (d * 2 ^ nat k), k)
         else (rne (n * 2 ^ nat (- k)) d, k))"

text \<open>The conversion of a positive integer to \<^verbatim>\<open>float\<close>.\<close>

definition float_of_nat :: "nat \<Rightarrow> nat \<times> int" where
  "float_of_nat n = float_round n 1"

text \<open>
  The quotient of two positive binary32 values: the exact quotient
  \<open>(m1 * 2 ^ k1) / (m2 * 2 ^ k2)\<close>, written as a fraction of two natural numbers,
  rounded once.
\<close>

definition float_div :: "nat \<times> int \<Rightarrow> nat \<times> int \<Rightarrow> nat \<times> int" where
  "float_div x y =
     (case x of (m1, k1) \<Rightarrow> case y of (m2, k2) \<Rightarrow>
        float_round (m1 * 2 ^ nat k1 * 2 ^ nat (- k2)) (m2 * 2 ^ nat k2 * 2 ^ nat (- k1)))"

text \<open>\<^verbatim>\<open>ceil\<close> of a binary32 value, which is exact.\<close>

definition float_ceil :: "nat \<times> int \<Rightarrow> nat" where
  "float_ceil x =
     (case x of (m, k) \<Rightarrow>
        if 0 \<le> k then m * 2 ^ nat k else (m + 2 ^ nat (- k) - 1) div 2 ^ nat (- k))"

text \<open>
  The whole expression. Both operands of the division are integers converted to
  \<^verbatim>\<open>float\<close>, and a zero dividend gives zero. A zero block size makes the quotient
  infinite or not a number, and a sum of \<open>2 ^ 32\<close> or more does not fit the
  \<^verbatim>\<open>uint32_t\<close> it is stored in: the conversion is undefined in both cases, which
  is \<open>None\<close>. Below \<open>2 ^ 32\<close> the addition of 1 to the \<^verbatim>\<open>double\<close> that
  \<^verbatim>\<open>ceil\<close> returns is exact.
\<close>

definition blocksNumber_of :: "u64 \<Rightarrow> u32 \<Rightarrow> u32 option" where
  "blocksNumber_of inputSize bs =
     (if bs = 0 then None
      else let c = (if inputSize = 0 then 0
                    else float_ceil (float_div (float_of_nat (unat inputSize))
                                               (float_of_nat (unat bs))))
           in if c + 1 < 2 ^ 32 then Some (of_nat (c + 1)) else None)"

text \<open>
  \<^verbatim>\<open>headerSize = 0x18 + (blocksNumber * sizeof(uint32_t))\<close>: computed on
  \<^verbatim>\<open>size_t\<close> and stored in a \<^verbatim>\<open>uint32_t\<close>.
\<close>

definition headerSize_of :: "u32 \<Rightarrow> u32" where
  "headerSize_of blocksNumber = ucast (0x18 + (ucast blocksNumber :: u64) * 4)"

section \<open>Choice of the index shift\<close>

text \<open>
  Lines 157 to 177 of \<^verbatim>\<open>main\<close>. The first \<^verbatim>\<open>if\<close> stands alone; the chain
  that starts at the second one runs after it. \<open>s0\<close> is the value the header field has
  before (its initialiser is in ziso.h). The constants \<^verbatim>\<open>0x3FFFFFFFF\<close> and
  \<^verbatim>\<open>0x1FFFFFFFF\<close> are 64-bit, so those two differences are taken on 64 bits;
  \<^verbatim>\<open>0xFFFFFFFF\<close> and \<^verbatim>\<open>0x7FFFFFFF\<close> are 32-bit, so those two differences are
  taken on \<^verbatim>\<open>unsigned int\<close> and widened for the comparison.
\<close>

definition select_indexShift :: "u64 \<Rightarrow> u32 \<Rightarrow> u8 \<Rightarrow> u8" where
  "select_indexShift inputSize headerSize s0 =
     (let s1 = (if inputSize > 0x3FFFFFFFF - ucast headerSize then 4 else s0)
      in if inputSize > 0x1FFFFFFFF - ucast headerSize then 3
         else if inputSize > ucast (0xFFFFFFFF - headerSize) then 2
         else if inputSize > ucast (0x7FFFFFFF - headerSize) then 1
         else s1)"

section \<open>Encoding\<close>

text \<open>
  What the LZ4 library, ziso.h and the platform fix, taken as parameters: the two
  compressors, the header value before \<^verbatim>\<open>main\<close> assigns its fields, the bytes
  that \<^verbatim>\<open>outFile.write(&fileHeader, sizeof(fileHeader))\<close> writes, and the four
  bytes of a \<^verbatim>\<open>uint32_t\<close> in the byte order of the machine.
\<close>

record env =
  lz :: lz4
  header0 :: zheader
  header_bytes :: "zheader \<Rightarrow> byte list"
  u32_bytes :: "u32 \<Rightarrow> byte list"

text \<open>
  The state of the encoding loop. Until the index is written back every write goes to
  the end of the output file, so \<^verbatim>\<open>outFile.tellp()\<close> is the length of \<open>out\<close>.
  \<open>in_fail\<close> says that the input stream has failed: it then reads nothing and
  \<^verbatim>\<open>inFile.tellg()\<close> answers -1; otherwise \<^verbatim>\<open>inFile.tellg()\<close> is
  \<open>in_pos\<close>.
\<close>

record enc_state =
  out :: "byte list"
  in_fail :: bool
  in_pos :: nat
  blocks :: "u32 list"
  readBuffer :: "byte list"
  writeBuffer :: "byte list"

text \<open>
  \<^verbatim>\<open>for (uint64_t i = blockStartPosition; i <= blockRealStartPosition; i++)
  outFile.write("\0", 1);\<close> The bound comes out of a 32-bit value, so the counter never
  wraps and is a natural number here.
\<close>

function pad_loop :: "nat \<Rightarrow> nat \<Rightarrow> byte list \<Rightarrow> byte list" where
  "pad_loop i blockRealStartPosition outp =
     (if i \<le> blockRealStartPosition
      then pad_loop (Suc i) blockRealStartPosition (outp @ [0])
      else outp)"
  by pat_completeness auto
termination
  by (relation "measure (\<lambda>(i, r, outp). Suc r - i)") auto

declare pad_loop.simps [simp del]

definition write_padding :: "u64 \<Rightarrow> u64 \<Rightarrow> byte list \<Rightarrow> byte list" where
  "write_padding blockStartPosition blockRealStartPosition outp =
     (if blockRealStartPosition > blockStartPosition
      then pad_loop (unat blockStartPosition) (unat blockRealStartPosition) outp
      else outp)"

text \<open>
  Lines 195 to 202: how many bytes the loop asks for, and the bytes that
  \<^verbatim>\<open>inFile.read\<close> delivers.
\<close>

definition read_block :: "opt \<Rightarrow> byte list \<Rightarrow> u64 \<Rightarrow> enc_state \<Rightarrow> u64 \<times> byte list" where
  "read_block settings input inputSize st =
     (let leftInFile = inputSize - (if in_fail st then - 1 else of_nat (in_pos st));
          toRead = (if leftInFile < ucast (blockSize settings)
                    then leftInFile else ucast (blockSize settings))
      in (toRead, if in_fail st then [] else take (unat toRead) (drop (in_pos st) input)))"

text \<open>
  The body of the block loop (lines 191 to 234), without the progress report. The
  flag is \<open>False\<close> when the block could not be stored, which makes \<^verbatim>\<open>main\<close> leave
  with return code 1.
\<close>

definition encode_block ::
  "lz4 \<Rightarrow> opt \<Rightarrow> zheader \<Rightarrow> byte list \<Rightarrow> u64 \<Rightarrow> nat \<Rightarrow> enc_state \<Rightarrow> bool \<times> enc_state" where
  "encode_block codec settings fileHeader input inputSize currentBlock st =
     (let blockStartPosition = (of_nat (length (out st)) :: u64);
          (toRead, data) = read_block settings input inputSize st;
          rbuf = overlay data (readBuffer st);
          (compressed, uncompressed, wbuf) =
            compress_block codec rbuf (ucast toRead) (writeBuffer st)
              (of_nat (length (writeBuffer st))) False settings;
          compressedBytes = sint compressed;
          st1 = st\<lparr>in_pos := in_pos st + length data, readBuffer := rbuf, writeBuffer := wbuf\<rparr>
      in if compressedBytes > 0
         then (let out1 = out st @ take (nat compressedBytes) wbuf;
                   (entry, blockRealStartPosition) =
                     pos_to_index blockStartPosition (indexShift fileHeader) uncompressed
               in (True,
                   st1\<lparr>out := write_padding blockStartPosition blockRealStartPosition out1,
                       blocks := (blocks st)[currentBlock := entry]\<rparr>))
         else (False, st1))"

function encode_loop ::
  "lz4 \<Rightarrow> opt \<Rightarrow> zheader \<Rightarrow> byte list \<Rightarrow> u64 \<Rightarrow> nat \<Rightarrow> nat \<Rightarrow> enc_state \<Rightarrow> bool \<times> enc_state" where
  "encode_loop codec settings fileHeader input inputSize currentBlock n st =
     (if currentBlock < n
      then (case encode_block codec settings fileHeader input inputSize currentBlock st of
              (True, st') \<Rightarrow>
                encode_loop codec settings fileHeader input inputSize (Suc currentBlock) n st'
            | (False, st') \<Rightarrow> (False, st'))
      else (True, st))"
  by pat_completeness auto
termination
  by (relation "measure (\<lambda>(codec, settings, fileHeader, input, inputSize, c, n, st). n - c)") auto

declare encode_loop.simps [simp del]

text \<open>The end-of-data entry (lines 237 to 248).\<close>

definition encode_eof :: "zheader \<Rightarrow> nat \<Rightarrow> enc_state \<Rightarrow> enc_state" where
  "encode_eof fileHeader lastBlock st =
     (let blockStartPosition = (of_nat (length (out st)) :: u64);
          (entry, blockRealStartPosition) =
            pos_to_index blockStartPosition (indexShift fileHeader) False
      in st\<lparr>out := write_padding blockStartPosition blockRealStartPosition (out st),
            blocks := (blocks st)[lastBlock := entry]\<rparr>)"

text \<open>\<^verbatim>\<open>seekp(pos)\<close> followed by a write of \<open>bs\<close>, for \<open>pos\<close> inside the file.\<close>

definition write_at :: "nat \<Rightarrow> byte list \<Rightarrow> byte list \<Rightarrow> byte list" where
  "write_at pos bs outp = take pos outp @ bs @ drop (pos + length bs) outp"

text \<open>
  The compression branch of \<^verbatim>\<open>main\<close> (lines 143 to 252): whether it reached
  the end without an error, and the content of the output file. \<open>None\<close> is an
  undefined block count. The read of the four magic bytes before it fails on an input
  shorter than that and leaves the stream failed, so that \<^verbatim>\<open>seekg\<close> does nothing,
  \<^verbatim>\<open>tellg\<close> answers -1 and the input size becomes \<open>2 ^ 64 - 1\<close>.
\<close>

definition encode :: "env \<Rightarrow> opt \<Rightarrow> byte list \<Rightarrow> (bool \<times> byte list) option" where
  "encode ev settings input =
     (let failed = (length input < 4);
          inputSize = (if failed then - 1 else of_nat (length input) :: u64)
      in case blocksNumber_of inputSize (blockSize settings) of
        None \<Rightarrow> None
      | Some blocksNumber \<Rightarrow>
          (let headerSize = headerSize_of blocksNumber;
               fileHeader = (header0 ev)
                 \<lparr>uncompressedSize := inputSize, hdrBlockSize := blockSize settings,
                  indexShift := select_indexShift inputSize headerSize (indexShift (header0 ev))\<rparr>;
               st0 = \<lparr>out = header_bytes ev fileHeader @ replicate (4 * unat blocksNumber) 0,
                      in_fail = failed, in_pos = 0,
                      blocks = replicate (unat blocksNumber) 0,
                      readBuffer = replicate (unat (blockSize settings)) 0,
                      writeBuffer = replicate (unat (blockSize settings)) 0\<rparr>
           in case encode_loop (lz ev) settings fileHeader input inputSize 0
                     (unat (blocksNumber - 1)) st0 of
                (False, st) \<Rightarrow> Some (False, out st)
              | (True, st) \<Rightarrow>
                  (let st' = encode_eof fileHeader (unat (blocksNumber - 1)) st
                   in Some (True,
                        write_at 0x18 (concat (map (u32_bytes ev) (blocks st'))) (out st')))))"

section \<open>The program\<close>

text \<open>
  The files the program can see: the content of each path that exists, whether a path
  can be opened for writing, and whether \<^verbatim>\<open>remove\<close> succeeds on it. A file that
  exists is taken to be readable.
\<close>

record filesystem =
  files :: "string \<Rightarrow> byte list option"
  creatable :: "string \<Rightarrow> bool"
  deletable :: "string \<Rightarrow> bool"

text \<open>\<^verbatim>\<open>inputFile.substr(0, inputFile.find_last_of("."))\<close>\<close>

definition rawName :: "string \<Rightarrow> string" where
  "rawName s =
     (if CHR ''.'' \<in> set s then rev (tl (dropWhile (\<lambda>c. c \<noteq> CHR ''.'') (rev s))) else s)"

definition magic :: "byte list" where
  "magic = [0x5A, 0x49, 0x53, 0x4F]"

text \<open>The code after the label \<^verbatim>\<open>exit\<close> (lines 259 to 295).\<close>

definition at_exit :: "int \<Rightarrow> opt \<Rightarrow> filesystem \<Rightarrow> int \<times> filesystem" where
  "at_exit return_code settings fs =
     (if return_code = 0 then (return_code, fs)
      else if \<not> keepOutput settings
              \<and> files fs (outputFile settings) \<noteq> None
              \<and> deletable fs (outputFile settings)
      then (return_code, fs\<lparr>files := (files fs)(outputFile settings := None)\<rparr>)
      else (return_code, fs))"

text \<open>
  Lines 78 to 97: an input that starts with the four characters ZISO is to be
  decompressed. A shorter file leaves the rest of \<^verbatim>\<open>file_format\<close> zero.
\<close>

definition detect_format :: "opt \<Rightarrow> byte list \<Rightarrow> opt" where
  "detect_format settings input =
     (if take 4 input = magic then settings\<lparr>compress := False\<rparr> else settings)"

text \<open>Lines 99 to 114: the output name when none was given.\<close>

definition name_output :: "opt \<Rightarrow> opt" where
  "name_output settings =
     (if outputFile settings = []
      then settings\<lparr>outputFile := rawName (inputFile settings)
                     @ (if compress settings then ''.zso'' else ''.iso'')\<rparr>
      else settings)"

text \<open>
  Lines 116 to 257, from the check of the output file to the label \<^verbatim>\<open>exit\<close>:
  the return code, the settings and the files at the label. Opening the output file
  for writing creates it or empties it. A run that compresses a file onto itself
  depends on the buffering of the streams and is not modelled (\<open>None\<close>).
\<close>

definition process ::
  "env \<Rightarrow> opt \<Rightarrow> byte list \<Rightarrow> filesystem \<Rightarrow> (int \<times> opt \<times> filesystem) option" where
  "process ev settings input fs =
     (if \<not> overwrite settings \<and> files fs (outputFile settings) \<noteq> None
      then Some (1, settings\<lparr>keepOutput := True\<rparr>, fs)
      else if \<not> creatable fs (outputFile settings)
      then Some (1, settings, fs)
      else (let fs1 = fs\<lparr>files := (files fs)(outputFile settings \<mapsto> [])\<rparr>
            in if compress settings
               then (if outputFile settings = inputFile settings then None
                     else (case encode ev settings input of
                             None \<Rightarrow> None
                           | Some (ok, outp) \<Rightarrow>
                               Some (if ok then 0 else 1, settings,
                                     fs1\<lparr>files := (files fs1)(outputFile settings \<mapsto> outp)\<rparr>)))
               else Some (0, settings, fs1)))"

text \<open>
  \<^verbatim>\<open>main\<close>: the return code and the files afterwards. \<open>settings0\<close> is the
  value of \<^verbatim>\<open>opt settings;\<close> before the options are parsed.
\<close>

definition main :: "env \<Rightarrow> opt \<Rightarrow> cli_opt list \<Rightarrow> filesystem \<Rightarrow> (int \<times> filesystem) option" where
  "main ev settings0 args fs =
     (case get_options args settings0 of
        (return_code, s1) \<Rightarrow>
          if return_code \<noteq> 0 then Some (at_exit return_code s1 fs)
          else if inputFile s1 = [] then Some (at_exit 1 s1 fs)
          else (case files fs (inputFile s1) of
                  None \<Rightarrow> Some (at_exit 1 s1 fs)
                | Some input \<Rightarrow>
                    (case process ev (name_output (detect_format s1 input)) input fs of
                       None \<Rightarrow> None
                     | Some (rc, s, fs') \<Rightarrow> Some (at_exit rc s fs'))))"

section \<open>Concrete inputs\<close>

text \<open>
  Stand-ins for the LZ4 library on small inputs. \<open>lz4_fixed r w\<close> answers \<open>r\<close> and
  leaves \<open>w\<close> in the destination whatever it is given. \<open>lz4_stub\<close> turns a block that
  starts with a zero byte into three bytes and reports failure (0) on any other block.
\<close>

definition lz4_fixed :: "int \<Rightarrow> byte list \<Rightarrow> lz4" where
  "lz4_fixed r w =
     \<lparr>LZ4_compress_HC = (\<lambda>src n cap lvl. (r, w)),
      LZ4_compress_fast = (\<lambda>src n cap lvl. (r, w)),
      lz4_compression_level = (\<lambda>i. 1)\<rparr>"

definition lz4_stub :: lz4 where
  "lz4_stub =
     \<lparr>LZ4_compress_HC =
        (\<lambda>src n cap lvl. if take 1 src = [0] then (3, [0x11, 0x22, 0x33]) else (0, [])),
      LZ4_compress_fast =
        (\<lambda>src n cap lvl. if take 1 src = [0] then (3, [0x11, 0x22, 0x33]) else (0, [])),
      lz4_compression_level = (\<lambda>i. 1)\<rparr>"

definition le32 :: "u32 \<Rightarrow> byte list" where
  "le32 w = [ucast w, ucast (drop_bit 8 w), ucast (drop_bit 16 w), ucast (drop_bit 24 w)]"

definition env_ex :: env where
  "env_ex =
     \<lparr>lz = lz4_stub,
      header0 = \<lparr>uncompressedSize = 0, hdrBlockSize = 0, indexShift = 0\<rparr>,
      header_bytes = (\<lambda>h. magic @ replicate 20 0),
      u32_bytes = le32\<rparr>"

text \<open>
  A directory that holds a compressed image and, under the name the program derives
  for its output, an older file.
\<close>

definition fs_ex :: filesystem where
  "fs_ex =
     \<lparr>files = [''game.zso'' \<mapsto> magic @ [1, 2, 3], ''game.iso'' \<mapsto> [7, 7, 7]],
      creatable = (\<lambda>p. True), deletable = (\<lambda>p. True)\<rparr>"

text \<open>A directory that holds one file and no input image.\<close>

definition fs_ex2 :: filesystem where
  "fs_ex2 =
     \<lparr>files = [''game.zso'' \<mapsto> [7, 7, 7]],
      creatable = (\<lambda>p. True), deletable = (\<lambda>p. True)\<rparr>"

text \<open>
  The block loop at work with index shift 1, on blocks of eight bytes: a header of 24
  bytes and three index entries have been written, and the input is a block of zeros
  followed by a block that does not compress.
\<close>

definition settings_ex :: opt where
  "settings_ex = default_opt\<lparr>blockSize := 8\<rparr>"

definition header_ex :: zheader where
  "header_ex = \<lparr>uncompressedSize = 16, hdrBlockSize = 8, indexShift = 1\<rparr>"

definition input_ex :: "byte list" where
  "input_ex = [0, 0, 0, 0, 0, 0, 0, 0, 1, 2, 3, 4, 5, 6, 7, 8]"

definition st_ex :: enc_state where
  "st_ex =
     \<lparr>out = replicate 24 0xFF @ replicate 12 0, in_fail = False, in_pos = 0,
      blocks = [0, 0, 0],
      readBuffer = [0, 0, 0, 0, 0, 0, 0, 0], writeBuffer = [0, 0, 0, 0, 0, 0, 0, 0]\<rparr>"

text \<open>The state after the first block.\<close>

definition st_ex1 :: enc_state where
  "st_ex1 =
     \<lparr>out = replicate 24 0xFF @ replicate 12 0 @ [0x11, 0x22, 0x33],
      in_fail = False, in_pos = 8,
      blocks = [18, 0, 0],
      readBuffer = [0, 0, 0, 0, 0, 0, 0, 0], writeBuffer = [0x11, 0x22, 0x33, 0, 0, 0, 0, 0]\<rparr>"

text \<open>The state after the second block.\<close>

definition st_ex2 :: enc_state where
  "st_ex2 =
     \<lparr>out = out st_ex1 @ [1, 2, 3, 4, 5, 6, 7, 8] @ [0, 0], in_fail = False, in_pos = 16,
      blocks = [18, 0x80000014, 0],
      readBuffer = [1, 2, 3, 4, 5, 6, 7, 8], writeBuffer = [1, 2, 3, 4, 5, 6, 7, 8]\<rparr>"

text \<open>
  The block loop asked for one more block when the four bytes of the input have all
  been read.
\<close>

definition st_end :: enc_state where
  "st_end =
     \<lparr>out = [], in_fail = False, in_pos = 4, blocks = [0],
      readBuffer = [0, 0, 0, 0], writeBuffer = [0, 0, 0, 0]\<rparr>"

section \<open>Auxiliary facts\<close>

lemma overlay_length: "length (overlay w buf) = length buf"
  by (simp add: overlay_def)

lemma overlay_take: "length w \<le> length buf \<Longrightarrow> take (length w) (overlay w buf) = w"
  by (simp add: overlay_def)

lemmas float_defs =
  blocksNumber_of_def float_of_nat_def float_div_def float_round_def rne_def float_ceil_def
  bit_length.simps Let_def

lemma encode_block_ex0:
  "encode_block lz4_stub settings_ex header_ex input_ex 16 0 st_ex = (True, st_ex1)"
  by (simp add: lz4_stub_def settings_ex_def header_ex_def input_ex_def st_ex_def st_ex1_def
        default_opt_def encode_block_def read_block_def compress_block_def lz4_call_def
        overlay_def pos_to_index_def write_padding_def Let_def)

lemma encode_block_ex1:
  "encode_block lz4_stub settings_ex header_ex input_ex 16 (Suc 0) st_ex1 = (True, st_ex2)"
  by (simp add: lz4_stub_def settings_ex_def header_ex_def input_ex_def st_ex1_def st_ex2_def
        default_opt_def encode_block_def read_block_def compress_block_def lz4_call_def
        overlay_def pos_to_index_def write_padding_def pad_loop.simps Let_def)

lemma encode_loop_ex:
  "encode_loop lz4_stub settings_ex header_ex input_ex 16 0 2 st_ex = (True, st_ex2)"
  by (simp add: encode_loop.simps encode_block_ex0 encode_block_ex1)

lemma unat_ucast_u32_u64: "unat (ucast (w :: u32) :: u64) = unat w"
proof -
  have "unat w < 2 ^ 32"
    using unsigned_less [of w, where 'a = nat] by simp
  then have "unat w < 2 ^ 64"
    by simp
  then show ?thesis
    by (simp add: unsigned_ucast_eq take_bit_nat_eq_self)
qed

lemma unat_ucast_u8_u32: "unat (ucast (w :: u8) :: u32) = unat w"
proof -
  have "unat w < 2 ^ 8"
    using unsigned_less [of w, where 'a = nat] by simp
  then have "unat w < 2 ^ 32"
    by simp
  then show ?thesis
    by (simp add: unsigned_ucast_eq take_bit_nat_eq_self)
qed

lemma unat_u32_of_nat: "n < 2 ^ 32 \<Longrightarrow> unat (of_nat n :: u32) = n"
  by (simp add: unat_of_nat)

lemma unat_u64_of_nat: "n < 2 ^ 64 \<Longrightarrow> unat (of_nat n :: u64) = n"
  by (simp add: unat_of_nat)

lemma unat_ucast_u64_u32: "unat (w :: u64) < 2 ^ 32 \<Longrightarrow> unat (ucast w :: u32) = unat w"
  by (simp add: unsigned_ucast_eq take_bit_nat_eq_self)

lemma unat_push_bit_u32:
  "unat (w :: u32) * 2 ^ n < 2 ^ 32 \<Longrightarrow> unat (push_bit n w) = unat w * 2 ^ n"
  by (simp only: unsigned_push_bit_eq [where 'a = nat]) (simp add: take_bit_nat_eq_self push_bit_eq_mult)

text \<open>Rounding up to a multiple of \<open>d\<close>, on natural numbers.\<close>

lemma ceil_div_cases:
  fixes p d :: nat
  assumes "0 < d"
  shows "(p + d - 1) div d = (if p mod d = 0 then p div d else p div d + 1)"
proof -
  define k where "k = p div d"
  define r where "r = p mod d"
  have p: "p = k * d + r"
    by (simp add: k_def r_def)
  have rd: "r < d"
    using assms by (simp add: r_def)
  have d0: "d \<noteq> 0"
    using assms by simp
  have "p + d - 1 = k * d + (r + d - 1)"
    using p assms by simp
  moreover have "(k * d + (r + d - 1)) div d = k + (r + d - 1) div d"
    using d0 by (rule div_mult_self3)
  moreover have "(r + d - 1) div d = (if r = 0 then 0 else 1)"
  proof (cases "r = 0")
    case True
    then show ?thesis using assms by simp
  next
    case False
    then have "r + d - 1 = d + (r - 1)" by simp
    moreover have "(d + (r - 1)) div d = (r - 1) div d + 1"
      using d0 by (rule div_add_self1)
    moreover have "(r - 1) div d = 0" using rd by simp
    ultimately show ?thesis using False by simp
  qed
  ultimately show ?thesis
    by (simp add: k_def r_def)
qed

text \<open>
  As long as the aligned offset stays below \<open>2 ^ 32\<close> the 32-bit shifts in
  \<open>pos_to_index\<close> lose nothing: the entry is the offset divided by \<open>2 ^ shift\<close>,
  rounded up, with the flag in bit 31, and the offset written back is that quotient times
  \<open>2 ^ shift\<close>.
\<close>

lemma pos_to_index_below_4GiB:
  assumes s: "shift \<le> 4" and p: "filePosition \<le> 0xFFFFFFEF"
  defines "d \<equiv> (2 :: nat) ^ unat shift"
  defines "q \<equiv> (unat filePosition + d - 1) div d"
  shows "pos_to_index filePosition shift raw
           = (of_nat q OR (if raw then 0x80000000 else 0), of_nat (q * d))"
proof -
  let ?p = "unat filePosition"
  let ?s = "unat shift"
  have s4: "?s \<le> 4" using s by (simp add: word_le_nat_alt)
  have d: "0 < d" "d \<le> 16"
    using power_increasing [of ?s 4 "2 :: nat"] s4 by (simp_all add: d_def)
  have pb: "?p \<le> 0xFFFFFFEF" using p by (simp add: word_le_nat_alt)
  define q0 where "q0 = ?p div d"
  have q0: "q0 * d \<le> ?p" by (simp add: q0_def)
  have q0p: "q0 \<le> ?p" by (simp add: q0_def)
  have q0b: "q0 < 2 ^ 32" using q0p pb by simp
  have q0d: "q0 * d < 2 ^ 32" using q0 pb by simp
  have pw: "?p < 2 ^ 32" using pb by simp
  \<comment> \<open>the four intermediate values\<close>
  define ip0 where "ip0 = (ucast (drop_bit ?s filePosition) :: u32)"
  define nf0 where "nf0 = (ucast (push_bit ?s ip0 :: u32) :: u64)"
  have "unat (drop_bit ?s filePosition) = q0"
    by (simp only: unat_drop_bit_eq) (simp add: drop_bit_eq_div q0_def d_def)
  then have ip0: "unat ip0 = q0"
    using q0b by (simp add: ip0_def unat_ucast_u64_u32)
  have "unat (push_bit ?s ip0 :: u32) = q0 * d"
    using q0d ip0 by (simp add: unat_push_bit_u32 d_def)
  then have nf0: "unat nf0 = q0 * d"
    by (simp add: nf0_def unat_ucast_u32_u64)
  have gt: "filePosition > nf0 \<longleftrightarrow> ?p mod d \<noteq> 0"
  proof -
    have "?p = q0 * d + ?p mod d" by (simp add: q0_def)
    then have "q0 * d < ?p \<longleftrightarrow> ?p mod d \<noteq> 0" by linarith
    then show ?thesis by (simp add: word_less_nat_alt nf0)
  qed
  have unfold: "pos_to_index filePosition shift raw =
      (if filePosition > nf0
       then ((ip0 + 1) OR (if raw then 0x80000000 else 0),
             (ucast (push_bit ?s (ip0 + 1) :: u32) :: u64))
       else (ip0 OR (if raw then 0x80000000 else 0), nf0))"
    by (simp add: pos_to_index_def ip0_def nf0_def Let_def)
  have q: "q = (if ?p mod d = 0 then q0 else q0 + 1)"
    using ceil_div_cases [OF d(1), of ?p] by (simp add: q_def q0_def)
  show ?thesis
  proof (cases "?p mod d = 0")
    case True
    then have ngt: "\<not> filePosition > nf0" using gt by simp
    have qq: "q = q0" using True q by simp
    have "q < 2 ^ 32"
      using q0b by (simp add: qq)
    then have uq: "unat (of_nat q :: u32) = q"
      by (rule unat_u32_of_nat)
    have "q * d < 2 ^ 64"
      using q0d by (simp add: qq)
    then have uqd: "unat (of_nat (q * d) :: u64) = q * d"
      by (rule unat_u64_of_nat)
    have "unat ip0 = unat (of_nat q :: u32)"
      by (simp only: uq ip0) (simp only: qq)
    then have e: "ip0 = of_nat q"
      by (simp only: word_unat_eq_iff)
    have "unat nf0 = unat (of_nat (q * d) :: u64)"
      by (simp only: uqd nf0) (simp only: qq)
    then have f: "nf0 = of_nat (q * d)"
      by (simp only: word_unat_eq_iff)
    show ?thesis
      unfolding unfold by (simp only: ngt if_False) (simp only: e f)
  next
    case False
    then have g: "filePosition > nf0" using gt by simp
    have qq: "q = q0 + 1" using False q by simp
    have q1: "(q0 + 1) * d < 2 ^ 32"
    proof -
      have "(q0 + 1) * d = q0 * d + d" by (simp add: algebra_simps)
      then show ?thesis using q0 pb d by simp
    qed
    have "(q0 + 1) * 1 \<le> (q0 + 1) * d"
      using d by (intro mult_le_mono2) simp
    then have q1b: "q0 + 1 < 2 ^ 32" using q1 by simp
    have ip1: "unat (ip0 + 1) = q0 + 1"
      using ip0 q1b by (simp add: unat_word_ariths)
    have "q < 2 ^ 32"
      using q1b by (simp add: qq)
    then have uq: "unat (of_nat q :: u32) = q"
      by (rule unat_u32_of_nat)
    have "q * d < 2 ^ 64"
      using q1 by (simp add: qq)
    then have uqd: "unat (of_nat (q * d) :: u64) = q * d"
      by (rule unat_u64_of_nat)
    have "unat (ip0 + 1) = unat (of_nat q :: u32)"
      by (simp only: uq ip1) (simp only: qq)
    then have e: "ip0 + 1 = of_nat q"
      by (simp only: word_unat_eq_iff)
    have "unat (push_bit ?s (ip0 + 1) :: u32) = (q0 + 1) * d"
      using q1 ip1 by (simp add: unat_push_bit_u32 d_def)
    then have "unat (ucast (push_bit ?s (ip0 + 1) :: u32) :: u64) = unat (of_nat (q * d) :: u64)"
      by (simp only: uqd unat_ucast_u32_u64) (simp only: qq)
    then have f: "(ucast (push_bit ?s (ip0 + 1) :: u32) :: u64) = of_nat (q * d)"
      by (simp only: word_unat_eq_iff)
    show ?thesis
      unfolding unfold by (simp only: g if_True) (simp only: e f [unfolded e])
  qed
qed

lemma entry_low_bits:
  fixes w :: u32
  assumes "w < 2 ^ 31"
  shows "(w OR (if raw then 0x80000000 else 0)) AND 0x7FFFFFFF = w"
proof -
  have m: "(0x7FFFFFFF :: u32) = mask 31"
    by (simp add: mask_eq_exp_minus_1)
  have t: "(0x80000000 :: u32) = 2 ^ 31"
    by simp
  have "w AND mask 31 = w"
    using assms by (rule less_mask_eq)
  then have w: "take_bit 31 w = w"
    by (simp only: take_bit_eq_mask)
  have "take_bit 31 (w OR (if raw then 2 ^ 31 else 0)) = w"
    using w by simp
  then show ?thesis
    unfolding m t by (simp only: take_bit_eq_mask)
qed

lemma entry_flag_bit:
  fixes w :: u32
  assumes "w < 2 ^ 31"
  shows "(w OR (if raw then 0x80000000 else 0)) AND 0x80000000 \<noteq> 0 \<longleftrightarrow> raw"
proof -
  have t: "(0x80000000 :: u32) = 2 ^ 31"
    by simp
  have "w AND mask 31 = w"
    using assms by (rule less_mask_eq)
  then have w: "take_bit 31 w = w"
    by (simp only: take_bit_eq_mask)
  have nb: "\<not> bit w 31"
    by (subst w [symmetric]) (simp add: bit_take_bit_iff)
  have "bit (w OR (if raw then 2 ^ 31 else 0)) 31 \<longleftrightarrow> raw"
    using nb by (simp add: bit_or_iff bit_exp_iff)
  then show ?thesis
    unfolding t by (simp only: and_exp_eq_0_iff_not_bit) simp
qed


lemma quantized_bound:
  fixes p d :: nat
  assumes "0 < d" "d \<le> 16" "p \<le> 0xFFFFFFEF"
  shows "(p + d - 1) div d * d < 2 ^ 32"
proof -
  have "(p + d - 1) div d * d \<le> p + d - 1"
    by simp
  also have "\<dots> < 2 ^ 32"
    using assms by simp
  finally show ?thesis .
qed

text \<open>
  Below that bound, and with a quotient that fits in 31 bits, \<open>index_to_pos\<close> gives back
  the aligned offset and the flag.
\<close>

lemma index_round_trip_below_4GiB:
  assumes s: "shift \<le> 4" and p: "filePosition \<le> 0xFFFFFFEF"
      and q31: "(unat filePosition + 2 ^ unat shift - 1) div 2 ^ unat shift < 2 ^ 31"
  shows "index_to_pos (fst (pos_to_index filePosition shift raw)) shift
           = (snd (pos_to_index filePosition shift raw), raw)"
proof -
  define d where "d = (2 :: nat) ^ unat shift"
  define q where "q = (unat filePosition + d - 1) div d"
  have s4: "unat shift \<le> 4" using s by (simp add: word_le_nat_alt)
  have d: "0 < d" "d \<le> 16"
    using power_increasing [of "unat shift" 4 "2 :: nat"] s4 by (simp_all add: d_def)
  have pb: "unat filePosition \<le> 0xFFFFFFEF" using p by (simp add: word_le_nat_alt)
  have qd: "q * d < 2 ^ 32"
    unfolding q_def using d pb by (rule quantized_bound)
  have q: "q < 2 ^ 31"
    using q31 by (simp add: q_def d_def)
  then have q32: "q < 2 ^ 32"
    by simp
  have uq: "unat (of_nat q :: u32) = q"
    using q32 by (rule unat_u32_of_nat)
  have wq: "(of_nat q :: u32) < 2 ^ 31"
    using q by (simp add: word_less_nat_alt uq)
  have "unat (push_bit (unat shift) (of_nat q :: u32)) = q * d"
    using qd by (simp add: unat_push_bit_u32 uq d_def)
  moreover have "unat (of_nat (q * d) :: u64) = q * d"
    using qd by (intro unat_u64_of_nat) simp
  ultimately have "unat (ucast (push_bit (unat shift) (of_nat q :: u32)) :: u64)
                     = unat (of_nat (q * d) :: u64)"
    by (simp only: unat_ucast_u32_u64)
  then have dec: "(ucast (push_bit (unat shift) (of_nat q :: u32)) :: u64) = of_nat (q * d)"
    by (simp only: word_unat_eq_iff)
  have enc: "pos_to_index filePosition shift raw
               = (of_nat q OR (if raw then 0x80000000 else 0), of_nat (q * d))"
    unfolding q_def d_def using s p by (rule pos_to_index_below_4GiB)
  show ?thesis
    unfolding enc index_to_pos_def fst_conv snd_conv
    by (simp only: entry_low_bits [OF wq] entry_flag_bit [OF wq] dec)
qed

text \<open>
  Below that bound the offset written back is the least multiple of \<open>2 ^ shift\<close> that
  is not below the offset given.
\<close>

lemma pos_to_index_rounds_up_below_4GiB:
  assumes s: "shift \<le> 4" and p: "filePosition \<le> 0xFFFFFFEF"
  shows "filePosition \<le> snd (pos_to_index filePosition shift raw)
         \<and> 2 ^ unat shift dvd unat (snd (pos_to_index filePosition shift raw))
         \<and> unat (snd (pos_to_index filePosition shift raw)) < unat filePosition + 2 ^ unat shift"
proof -
  define d where "d = (2 :: nat) ^ unat shift"
  define q where "q = (unat filePosition + d - 1) div d"
  have s4: "unat shift \<le> 4" using s by (simp add: word_le_nat_alt)
  have d: "0 < d" "d \<le> 16"
    using power_increasing [of "unat shift" 4 "2 :: nat"] s4 by (simp_all add: d_def)
  have pb: "unat filePosition \<le> 0xFFFFFFEF" using p by (simp add: word_le_nat_alt)
  have qd: "q * d < 2 ^ 32"
    unfolding q_def using d pb by (rule quantized_bound)
  have u: "unat (of_nat (q * d) :: u64) = q * d"
    using qd by (intro unat_u64_of_nat) simp
  have enc: "snd (pos_to_index filePosition shift raw) = of_nat (q * d)"
    using pos_to_index_below_4GiB [OF s p, of raw] by (simp only: q_def d_def snd_conv)
  have cases: "q = (if unat filePosition mod d = 0 then unat filePosition div d
                    else unat filePosition div d + 1)"
    unfolding q_def using d(1) by (rule ceil_div_cases)
  have split: "unat filePosition = unat filePosition div d * d + unat filePosition mod d"
    by simp
  have r: "unat filePosition mod d < d"
    using d by simp
  have lo: "unat filePosition \<le> q * d"
  proof (cases "unat filePosition mod d = 0")
    case True
    then show ?thesis using cases split by simp
  next
    case False
    then have "q * d = unat filePosition div d * d + d"
      using cases by (simp add: algebra_simps)
    then show ?thesis using split r by linarith
  qed
  have hi: "q * d < unat filePosition + d"
  proof (cases "unat filePosition mod d = 0")
    case True
    then show ?thesis using cases split d by simp
  next
    case False
    then have "q * d = unat filePosition div d * d + d"
      using cases by (simp add: algebra_simps)
    then show ?thesis using split False by linarith
  qed
  show ?thesis
    unfolding enc using lo hi by (simp add: word_le_nat_alt u d_def [symmetric] del: of_nat_mult)
qed


text \<open>The padding loop writes one byte more than the distance between its bounds.\<close>

lemma pad_loop_replicate: "pad_loop i r outp = outp @ replicate (Suc r - i) 0"
proof (induction i r outp rule: pad_loop.induct)
  case (1 i r outp)
  show ?case
  proof (cases "i \<le> r")
    case True
    then have "Suc r - i = Suc (Suc r - Suc i)"
      by simp
    with True 1 show ?thesis
      by (subst pad_loop.simps) (simp add: replicate_append_same)
  next
    case False
    then show ?thesis
      by (subst pad_loop.simps) simp
  qed
qed

text \<open>
  What one round of the block loop leaves in the output, for a block that starts below
  \<open>2 ^ 31 - 16\<close>: the payload at the position where the block started, then, when that
  position is not aligned, one zero byte more than the distance to the aligned position;
  the index entry of the block decodes to the aligned position.
\<close>

lemma encode_block_layout:
  assumes ok: "encode_block codec settings fileHeader input inputSize currentBlock st = (True, st')"
      and s: "indexShift fileHeader \<le> 4"
      and p: "length (out st) \<le> 0x7FFFFFEF"
      and c: "currentBlock < length (blocks st)"
  defines "d \<equiv> (2 :: nat) ^ unat (indexShift fileHeader)"
  defines "aligned \<equiv> (length (out st) + d - 1) div d * d"
  shows "\<exists>payload.
           out st' = out st @ payload
                     @ (if length (out st) < aligned
                        then replicate (aligned - length (out st) + 1) 0 else [])
           \<and> fst (index_to_pos (blocks st' ! currentBlock) (indexShift fileHeader))
                 = of_nat aligned"
proof -
  let ?len = "length (out st)"
  let ?shift = "indexShift fileHeader"
  define start where "start = (of_nat ?len :: u64)"
  define q where "q = (?len + d - 1) div d"
  have len64: "?len < 2 ^ 64"
    using p by simp
  have ustart: "unat start = ?len"
    unfolding start_def using len64 by (rule unat_u64_of_nat)
  have pstart: "start \<le> 0xFFFFFFEF"
    using p by (simp add: word_le_nat_alt ustart)
  have s4: "unat ?shift \<le> 4"
    using s by (simp add: word_le_nat_alt)
  have d: "0 < d" "d \<le> 16"
    using power_increasing [of "unat ?shift" 4 "2 :: nat"] s4 by (simp_all add: d_def)
  have al: "aligned = q * d"
    by (simp add: aligned_def q_def)
  have "q * d \<le> ?len + d - 1"
    by (simp add: q_def)
  then have qd: "q * d < 2 ^ 32"
    using p d by simp
  have "q \<le> ?len + d - 1"
    by (simp add: q_def div_le_dividend)
  then have q31: "q < 2 ^ 31"
    using p d by simp
  have enc: "pos_to_index start ?shift raw
               = (of_nat q OR (if raw then 0x80000000 else 0), of_nat (q * d))" for raw
    using pos_to_index_below_4GiB [OF s pstart, of raw] by (simp only: ustart q_def d_def)
  have dec: "index_to_pos (fst (pos_to_index start ?shift raw)) ?shift
               = (snd (pos_to_index start ?shift raw), raw)" for raw
    using q31 by (intro index_round_trip_below_4GiB [OF s pstart]) (simp only: ustart q_def d_def)
  have ureal: "unat (of_nat (q * d) :: u64) = q * d"
    using qd by (intro unat_u64_of_nat) simp
  have pad: "write_padding start (of_nat (q * d)) outp
               = outp @ (if ?len < q * d then replicate (q * d - ?len + 1) 0 else [])" for outp
    by (simp add: write_padding_def word_less_nat_alt ustart ureal pad_loop_replicate
          Suc_diff_le del: of_nat_mult)
  obtain toRead data where rb: "read_block settings input inputSize st = (toRead, data)"
    by (cases "read_block settings input inputSize st")
  obtain comp raw wbuf where cb:
    "compress_block codec (overlay data (readBuffer st)) (ucast toRead) (writeBuffer st)
       (of_nat (length (writeBuffer st))) False settings = (comp, raw, wbuf)"
    using prod_cases3 by blast
  from ok have o: "out st' = write_padding start (snd (pos_to_index start ?shift raw))
                      (out st @ take (nat (sint comp)) wbuf)"
    and b: "blocks st' = (blocks st)[currentBlock := fst (pos_to_index start ?shift raw)]"
    by (auto simp: encode_block_def Let_def rb cb start_def split: if_splits prod.splits)
  have "out st' = out st @ take (nat (sint comp)) wbuf
                  @ (if ?len < aligned then replicate (aligned - ?len + 1) 0 else [])"
    unfolding o enc snd_conv pad al by simp
  moreover have "fst (index_to_pos (blocks st' ! currentBlock) ?shift) = of_nat aligned"
  proof -
    have "blocks st' ! currentBlock = fst (pos_to_index start ?shift raw)"
      unfolding b using c by simp
    then have "index_to_pos (blocks st' ! currentBlock) ?shift
                 = (snd (pos_to_index start ?shift raw), raw)"
      by (simp only: dec)
    then show ?thesis
      by (simp only: enc snd_conv fst_conv al)
  qed
  ultimately show ?thesis
    by blast
qed


text \<open>With index shift 0 there is no padding and the entry decodes to the start.\<close>

lemma encode_block_shift_0:
  assumes ok: "encode_block codec settings fileHeader input inputSize currentBlock st = (True, st')"
      and s: "indexShift fileHeader = 0"
      and p: "length (out st) \<le> 0x7FFFFFEF"
      and c: "currentBlock < length (blocks st)"
  shows "\<exists>payload.
           out st' = out st @ payload
           \<and> fst (index_to_pos (blocks st' ! currentBlock) 0) = of_nat (length (out st))"
proof -
  have "indexShift fileHeader \<le> 4"
    by (simp add: s)
  from encode_block_layout [OF ok this p c] show ?thesis
    by (simp add: s)
qed

text \<open>
  When \<open>compress_block\<close> returns 0 for the block that was read, the round fails and the
  loop stops.
\<close>

lemma encode_block_fails_on_0:
  assumes "read_block settings input inputSize st = (toRead, data)"
      and "fst (compress_block codec (overlay data (readBuffer st)) (ucast toRead)
                  (writeBuffer st) (of_nat (length (writeBuffer st))) False settings) = 0"
  shows "\<not> fst (encode_block codec settings fileHeader input inputSize currentBlock st)"
    and "\<not> fst (encode_loop codec settings fileHeader input inputSize currentBlock
                  (Suc currentBlock + k) st)"
proof -
  obtain comp raw wbuf where cb:
    "compress_block codec (overlay data (readBuffer st)) (ucast toRead) (writeBuffer st)
       (of_nat (length (writeBuffer st))) False settings = (comp, raw, wbuf)"
    using prod_cases3 by blast
  with assms(2) have "comp = 0"
    by simp
  with cb show 1: "\<not> fst (encode_block codec settings fileHeader input inputSize currentBlock st)"
    by (simp add: encode_block_def Let_def assms(1))
  then show "\<not> fst (encode_loop codec settings fileHeader input inputSize currentBlock
                      (Suc currentBlock + k) st)"
    by (subst encode_loop.simps) (auto split: prod.splits bool.splits)
qed

text \<open>
  An empty input with the default block size: the failed stream makes the input size
  \<open>2 ^ 64 - 1\<close>, and the block count computed from it does not fit a
  \<^verbatim>\<open>uint32_t\<close>.
\<close>

lemma blocksNumber_of_failed_stream: "blocksNumber_of 0xFFFFFFFFFFFFFFFF 2048 = None"
  by (simp add: float_defs)

lemma encode_empty_input: "encode ev default_opt [] = None"
proof -
  have "(- 1 :: u64) = 0xFFFFFFFFFFFFFFFF"
    by simp
  then have "blocksNumber_of (- 1) (blockSize default_opt) = None"
    by (simp only: blocksNumber_of_failed_stream default_opt_def opt.simps)
  then show ?thesis
    by (simp add: encode_def Let_def)
qed

text \<open>
  Whatever the input size, the chain of comparisons replaces the 4 that the first test
  may have set.
\<close>

lemma select_indexShift_not_4:
  assumes "s0 \<noteq> 4"
  shows "select_indexShift inputSize headerSize s0 \<noteq> 4"
proof -
  have h: "unat (ucast headerSize :: u64) < 2 ^ 32"
    using unsigned_less [of headerSize, where 'a = nat] by (simp add: unat_ucast_u32_u64)
  have a: "unat (0x1FFFFFFFF - (ucast headerSize :: u64)) = 0x1FFFFFFFF - unat (ucast headerSize :: u64)"
    using h by (subst unat_sub) (simp_all add: word_le_nat_alt)
  have b: "unat (0x3FFFFFFFF - (ucast headerSize :: u64)) = 0x3FFFFFFFF - unat (ucast headerSize :: u64)"
    using h by (subst unat_sub) (simp_all add: word_le_nat_alt)
  have "\<not> inputSize > 0x3FFFFFFFF - ucast headerSize"
    if "\<not> inputSize > 0x1FFFFFFFF - ucast headerSize"
    using that h by (simp add: word_less_nat_alt a b)
  with assms show ?thesis
    by (auto simp: select_indexShift_def Let_def)
qed

text \<open>A block size that \<^verbatim>\<open>-b\<close> has set is below 256.\<close>

lemma get_options_blockSize_below_256:
  assumes "get_options [Opt_b (Some v)] s = (0, s')"
  shows "blockSize s' < 256"
proof -
  have "(ucast (ucast (word_of_int v :: u64) :: u8) :: u32) < 256"
    using unsigned_less [of "ucast (word_of_int v :: u64) :: u8", where 'a = nat]
    by (simp add: word_less_nat_alt unat_ucast_u8_u32)
  with assms show ?thesis
    by (auto simp: Let_def split: if_splits)
qed

text \<open>
  When the options parse and the input file opens, a run that finds its output path
  taken and has no \<^verbatim>\<open>-f\<close> returns 1 and leaves every file as it was.
\<close>

lemma main_refuses_to_overwrite:
  assumes "get_options args settings0 = (0, s)"
      and "inputFile s \<noteq> []"
      and "files fs (inputFile s) = Some input"
      and "\<not> overwrite s"
      and "files fs (outputFile (name_output (detect_format s input))) \<noteq> None"
  shows "main ev settings0 args fs = Some (1, fs)"
proof -
  define s3 where "s3 = name_output (detect_format s input)"
  have w: "\<not> overwrite s3"
    using assms(4) by (simp add: s3_def name_output_def detect_format_def)
  have "process ev s3 input fs = Some (1, s3\<lparr>keepOutput := True\<rparr>, fs)"
    using assms(5) w by (simp add: process_def s3_def)
  then show ?thesis
    using assms(1,2,3) by (simp add: main_def s3_def at_exit_def)
qed

section \<open>C1: the index shift of a 16 GiB input\<close>

text \<open>
  C1 at an input of exactly \<open>2 ^ 34\<close> bytes with the default block size 2048. The
  block count is 8388609 and the header size 33554460, so the last byte of the output
  can lie beyond \<open>2 ^ 34\<close>, which needs shift 4. The first \<^verbatim>\<open>if\<close> sets 4, and
  the chain after it, which does not start with \<^verbatim>\<open>else\<close>, sets 3.
\<close>

theorem select_indexShift_16GiB:
  "blocksNumber_of 0x400000000 2048 = Some 8388609
   \<and> headerSize_of 8388609 = 33554460
   \<and> select_indexShift 0x400000000 (headerSize_of 8388609) 0 = 3"
proof -
  have "blocksNumber_of 0x400000000 2048 = Some 8388609"
    by (simp add: float_defs)
  then show ?thesis
    by (simp add: headerSize_of_def select_indexShift_def)
qed

section \<open>C2: decoding an index entry\<close>

text \<open>
  C2 at shift 2, raw flag clear and offset \<open>2 ^ 32\<close>, a multiple of 4 whose quotient
  \<open>2 ^ 30\<close> fits in 31 bits. \<open>pos_to_index\<close> shifts the quotient back on 32 bits, gets
  0, takes the offset for unaligned and returns \<open>2 ^ 30 + 1\<close>; \<open>index_to_pos\<close>
  decodes that entry to 4, and decodes \<open>2 ^ 30\<close> to 0.
\<close>

theorem index_round_trip_4GiB:
  "pos_to_index 0x100000000 2 False = (0x40000001, 4)
   \<and> index_to_pos 0x40000001 2 = (4, False)
   \<and> index_to_pos 0x40000000 2 = (0, False)"
  by (simp add: pos_to_index_def index_to_pos_def)

section \<open>C3: the aligned offset\<close>

text \<open>
  C3 at shift 2 and offset \<open>2 ^ 32 + 1\<close>, whose quotient rounded up, \<open>2 ^ 30 + 1\<close>,
  fits in 31 bits: the offset written back is 4, below the input offset, where the
  smallest multiple of 4 that is not below it is \<open>2 ^ 32 + 4\<close>.
\<close>

theorem pos_to_index_aligned_offset_4GiB:
  "snd (pos_to_index 0x100000001 2 False) = 4
   \<and> fst (pos_to_index 0x100000001 2 False) = 0x40000001"
  by (simp add: pos_to_index_def)

section \<open>C4: where the padding goes\<close>

text \<open>
  C4 at the second block of the example, which starts at the odd position 39 under
  index shift 1. The eight bytes of the block are written at position 39, two zero
  bytes follow them, and the index entry of the block decodes to position 40.
\<close>

theorem encode_block_padding_after_payload:
  "length (out st_ex1) = 39
   \<and> encode_block lz4_stub settings_ex header_ex input_ex 16 1 st_ex1 = (True, st_ex2)
   \<and> out st_ex2 = out st_ex1 @ [1, 2, 3, 4, 5, 6, 7, 8] @ [0, 0]
   \<and> index_to_pos (blocks st_ex2 ! 1) (indexShift header_ex) = (40, True)"
  using encode_block_ex1
  by (simp add: st_ex1_def st_ex2_def header_ex_def index_to_pos_def)

section \<open>C5: the policy of the block compressor\<close>

text \<open>
  C5, as the code has it. Let \<open>outSize\<close> be what the codec returns, as a
  \<^verbatim>\<open>uint32_t\<close>. When \<open>outSize\<close> is zero or larger than \<open>srcSize\<close> and
  \<open>srcSize \<le> dstSize\<close>, \<open>compress_block\<close> returns \<open>srcSize\<close>, sets the raw flag and
  leaves the first \<open>srcSize\<close> source bytes at the start of the destination (both
  buffers holding that many bytes). When \<open>outSize\<close> is zero or larger than \<open>srcSize\<close>
  and \<open>srcSize > dstSize\<close>, it returns 0 and leaves the flag as it was. When
  \<open>outSize\<close> is not zero and at most \<open>srcSize\<close>, equality included, it returns
  \<open>outSize\<close> with the raw flag clear. And when the call is the one that the block
  loop makes for the block it has read, a return value of 0 makes that round fail,
  which ends the encoding with an error.
\<close>

theorem compress_block_policy:
  assumes "compress_block codec src srcSize dst dstSize uncompressed settings = (ret, raw, dst')"
      and "outSize = (word_of_int (fst (lz4_call codec src srcSize dstSize settings)) :: u32)"
  shows "((outSize = 0 \<or> outSize > srcSize) \<and> srcSize \<le> dstSize
            \<and> unat srcSize \<le> length src \<and> unat srcSize \<le> length dst
          \<longrightarrow> ret = srcSize \<and> raw \<and> take (unat srcSize) dst' = take (unat srcSize) src)
       \<and> ((outSize = 0 \<or> outSize > srcSize) \<and> srcSize > dstSize
          \<longrightarrow> ret = 0 \<and> raw = uncompressed)
       \<and> (outSize \<noteq> 0 \<and> outSize \<le> srcSize \<longrightarrow> ret = outSize \<and> \<not> raw)
       \<and> (ret = 0 \<and> read_block settings input inputSize st = (toRead, data)
            \<and> src = overlay data (readBuffer st) \<and> srcSize = ucast toRead
            \<and> dst = writeBuffer st \<and> dstSize = of_nat (length (writeBuffer st))
            \<and> \<not> uncompressed
          \<longrightarrow> \<not> fst (encode_block codec settings fileHeader input inputSize currentBlock st))"
proof -
  obtain r w where rw: "lz4_call codec src srcSize dstSize settings = (r, w)"
    by (cases "lz4_call codec src srcSize dstSize settings")
  have o: "outSize = word_of_int r"
    by (simp add: assms(2) rw)
  have stored: "ret = srcSize \<and> raw \<and> take (unat srcSize) dst' = take (unat srcSize) src"
    if h: "(outSize = 0 \<or> outSize > srcSize) \<and> srcSize \<le> dstSize
            \<and> unat srcSize \<le> length src \<and> unat srcSize \<le> length dst"
  proof -
    from h have nl: "\<not> dstSize < srcSize" by auto
    from h nl assms(1)
    have r: "ret = srcSize" "raw" "dst' = overlay (take (unat srcSize) src) (overlay w dst)"
      by (auto simp: compress_block_def rw o Let_def)
    have "length (take (unat srcSize) src) = unat srcSize"
      using h by simp
    moreover have "take (length (take (unat srcSize) src))
                     (overlay (take (unat srcSize) src) (overlay w dst))
                   = take (unat srcSize) src"
      using h by (intro overlay_take) (simp add: overlay_length)
    ultimately show ?thesis
      by (simp add: r)
  qed
  have failed: "ret = 0 \<and> raw = uncompressed"
    if "(outSize = 0 \<or> outSize > srcSize) \<and> srcSize > dstSize"
    using that assms(1) by (auto simp: compress_block_def rw o Let_def)
  have compressed: "ret = outSize \<and> \<not> raw"
    if h: "outSize \<noteq> 0 \<and> outSize \<le> srcSize"
  proof -
    from h have "\<not> srcSize < word_of_int r" "(word_of_int r :: u32) \<noteq> 0"
      by (simp_all add: o not_less)
    with assms(1) show ?thesis
      by (simp add: compress_block_def rw o Let_def)
  qed
  have stops: "\<not> fst (encode_block codec settings fileHeader input inputSize currentBlock st)"
    if h: "ret = 0 \<and> read_block settings input inputSize st = (toRead, data)
            \<and> src = overlay data (readBuffer st) \<and> srcSize = ucast toRead
            \<and> dst = writeBuffer st \<and> dstSize = of_nat (length (writeBuffer st))
            \<and> \<not> uncompressed"
  proof -
    from h assms(1)
    have "fst (compress_block codec (overlay data (readBuffer st)) (ucast toRead)
                 (writeBuffer st) (of_nat (length (writeBuffer st))) False settings) = 0"
      by simp
    with h show ?thesis
      by (intro encode_block_fails_on_0(1) [of settings input inputSize st toRead data]) simp_all
  qed
  from stored failed compressed stops show ?thesis
    by blast
qed

text \<open>
  The cases at concrete blocks of four bytes: a codec that answers 0 with a destination
  of four bytes, the same with a destination of two bytes, a codec that answers 3, and
  the block loop at the end of the input, where nothing is left to read.
\<close>

theorem compress_block_policy_witness:
  "compress_block (lz4_fixed 0 []) [1, 2, 3, 4] 4 [0, 0, 0, 0] 4 False default_opt
     = (4, True, [1, 2, 3, 4])
   \<and> compress_block (lz4_fixed 0 []) [1, 2, 3, 4] 4 [0, 0] 2 False default_opt
     = (0, False, [0, 0])
   \<and> compress_block (lz4_fixed 3 [9, 9, 9]) [1, 2, 3, 4] 4 [0, 0, 0, 0] 4 False default_opt
     = (3, False, [9, 9, 9, 0])
   \<and> read_block (default_opt\<lparr>blockSize := 4\<rparr>) [1, 2, 3, 4] 4 st_end = (0, [])
   \<and> compress_block (lz4_fixed 0 []) [0, 0, 0, 0] 0 [0, 0, 0, 0] 4 False
         (default_opt\<lparr>blockSize := 4\<rparr>)
     = (0, True, [0, 0, 0, 0])
   \<and> \<not> fst (encode_block (lz4_fixed 0 []) (default_opt\<lparr>blockSize := 4\<rparr>)
              \<lparr>uncompressedSize = 4, hdrBlockSize = 4, indexShift = 0\<rparr> [1, 2, 3, 4] 4 0 st_end)"
proof -
  let ?o4 = "default_opt\<lparr>blockSize := 4\<rparr>"
  have e1: "compress_block (lz4_fixed 0 []) [1, 2, 3, 4] 4 [0, 0, 0, 0] 4 False default_opt
     = (4, True, [1, 2, 3, 4])"
    by (simp add: compress_block_def lz4_call_def lz4_fixed_def default_opt_def overlay_def)
  have e2: "compress_block (lz4_fixed 0 []) [1, 2, 3, 4] 4 [0, 0] 2 False default_opt
     = (0, False, [0, 0])"
    by (simp add: compress_block_def lz4_call_def lz4_fixed_def default_opt_def overlay_def)
  have e3: "compress_block (lz4_fixed 3 [9, 9, 9]) [1, 2, 3, 4] 4 [0, 0, 0, 0] 4 False default_opt
     = (3, False, [9, 9, 9, 0])"
    by (simp add: compress_block_def lz4_call_def lz4_fixed_def default_opt_def overlay_def)
  have e4: "compress_block (lz4_fixed 0 []) [0, 0, 0, 0] 0 [0, 0, 0, 0] 4 False ?o4
     = (0, True, [0, 0, 0, 0])"
    by (simp add: compress_block_def lz4_call_def lz4_fixed_def default_opt_def overlay_def)
  have rb: "read_block ?o4 [1, 2, 3, 4] 4 st_end = (0, [])"
    by (simp add: read_block_def st_end_def default_opt_def)
  have "(4 :: u32) = 4 \<and> True
        \<and> take (unat (4 :: u32)) [1, 2, 3, 4 :: byte] = take (unat (4 :: u32)) [1, 2, 3, 4]"
    using compress_block_policy [OF e1 refl]
    by (simp add: lz4_call_def lz4_fixed_def default_opt_def)
  moreover have "(0 :: u32) = 0 \<and> False = False"
    using compress_block_policy [OF e2 refl]
    by (simp add: lz4_call_def lz4_fixed_def default_opt_def)
  moreover have "(3 :: u32) = word_of_int 3 \<and> \<not> False"
    using compress_block_policy [OF e3 refl]
    by (simp add: lz4_call_def lz4_fixed_def default_opt_def)
  moreover have "\<not> fst (encode_block (lz4_fixed 0 []) ?o4
                      \<lparr>uncompressedSize = 4, hdrBlockSize = 4, indexShift = 0\<rparr>
                      [1, 2, 3, 4] 4 0 st_end)"
    using compress_block_policy [OF e4 refl, of "[1, 2, 3, 4]" 4 st_end 0 "[]"
            "\<lparr>uncompressedSize = 4, hdrBlockSize = 4, indexShift = 0\<rparr>" 0] rb
    by (simp add: st_end_def overlay_def)
  ultimately show ?thesis
    using e1 e2 e3 e4 rb by simp
qed

text \<open>
  C5 as the claim words it fails where the codec returns exactly \<open>srcSize\<close>: a size
  that is not smaller than the block is taken as compressed, and the block is not
  stored verbatim.
\<close>

theorem compress_block_equal_size_counterexample:
  "compress_block (lz4_fixed 4 [9, 9, 9, 9]) [1, 2, 3, 4] 4 [0, 0, 0, 0] 4 False default_opt
     = (4, False, [9, 9, 9, 9])"
  by (simp add: compress_block_def lz4_call_def lz4_fixed_def default_opt_def overlay_def)

section \<open>C6: the block size option\<close>

text \<open>
  C6 at \<^verbatim>\<open>--block-size 512\<close>: the value passes the check and is stored through a
  cast to \<^verbatim>\<open>uint8_t\<close>, so the block size read afterwards is 0.
\<close>

theorem get_options_block_size_512:
  "get_options [Opt_b (Some 512)] default_opt = (0, default_opt\<lparr>blockSize := 0\<rparr>)"
  by (simp add: default_opt_def)

section \<open>C7: the number of index entries\<close>

text \<open>
  C7 at an input of \<open>2 ^ 25 + 1\<close> bytes and block size 2048. The conversion to
  \<^verbatim>\<open>float\<close> rounds the size to \<open>8388608 * 2 ^ 2 = 2 ^ 25\<close>, the quotient is
  16384 and the count 16385; the ceiling of the exact quotient is 16385, which with the
  end entry is 16386.
\<close>

theorem blocksNumber_of_32MiB_plus_1:
  "float_of_nat 33554433 = (8388608, 2)
   \<and> blocksNumber_of 33554433 2048 = Some 16385
   \<and> (33554433 + 2047) div 2048 + 1 = (16386 :: nat)"
proof -
  have "float_of_nat 33554433 = (8388608, 2)"
    by (simp add: float_defs)
  moreover have "blocksNumber_of 33554433 2048 = Some 16385"
    by (simp add: float_defs)
  ultimately show ?thesis
    by simp
qed

section \<open>C8: the lengths read off the index\<close>

text \<open>
  C8 at the example, under index shift 1. The three entries decode to 36, 40 and 50.
  The second block is stored raw with its eight bytes, and the index gives it
  \<open>50 - 40 = 10\<close>.
\<close>

theorem index_lengths_shift_1:
  "encode_loop lz4_stub settings_ex header_ex input_ex 16 0 2 st_ex = (True, st_ex2)
   \<and> index_to_pos (blocks (encode_eof header_ex 2 st_ex2) ! 0) 1 = (36, False)
   \<and> index_to_pos (blocks (encode_eof header_ex 2 st_ex2) ! 1) 1 = (40, True)
   \<and> index_to_pos (blocks (encode_eof header_ex 2 st_ex2) ! 2) 1 = (50, False)"
  using encode_loop_ex
  by (simp add: encode_eof_def st_ex1_def st_ex2_def header_ex_def pos_to_index_def
        index_to_pos_def write_padding_def Let_def)

section \<open>C9: an output file that exists\<close>

text \<open>
  C9 at \<^verbatim>\<open>-i missing.iso -o game.zso\<close>, where \<^verbatim>\<open>game.zso\<close> exists, the
  input does not, and neither \<^verbatim>\<open>-f\<close> nor \<^verbatim>\<open>-k\<close> is given. The program
  returns 1, and the code at \<^verbatim>\<open>exit\<close> removes \<^verbatim>\<open>game.zso\<close>.
\<close>

theorem main_removes_existing_output:
  "files fs_ex2 ''game.zso'' = Some [7, 7, 7]
   \<and> map_option fst (main env_ex default_opt [Opt_i ''missing.iso'', Opt_o ''game.zso''] fs_ex2)
       = Some 1
   \<and> files (snd (the (main env_ex default_opt [Opt_i ''missing.iso'', Opt_o ''game.zso''] fs_ex2)))
        ''game.zso'' = None"
  by (simp add: main_def default_opt_def fs_ex2_def at_exit_def Let_def)

section \<open>C10: an input that carries the ZISO magic\<close>

text \<open>
  C10, as the code has it. When the options parse, the input file exists and starts
  with the four bytes ZISO, the output path (the one given, or the input name with its
  extension replaced by \<^verbatim>\<open>.iso\<close>) either does not exist or may be overwritten,
  and it can be opened for writing, then \<open>main\<close> returns 0 and the only change to the
  files is that the output file exists and is empty.
\<close>

theorem main_decompress:
  assumes "get_options args settings0 = (0, s)"
      and "inputFile s \<noteq> []"
      and "files fs (inputFile s) = Some input"
      and "take 4 input = magic"
      and "outp = (if outputFile s = [] then rawName (inputFile s) @ ''.iso'' else outputFile s)"
      and "overwrite s \<or> files fs outp = None"
      and "creatable fs outp"
  shows "main ev settings0 args fs = Some (0, fs\<lparr>files := (files fs)(outp \<mapsto> [])\<rparr>)"
proof -
  define s3 where "s3 = name_output (detect_format s input)"
  have o: "outputFile s3 = outp" and c: "\<not> compress s3" and w: "overwrite s3 = overwrite s"
    using assms(4,5) by (simp_all add: s3_def name_output_def detect_format_def)
  have "process ev s3 input fs = Some (0, s3, fs\<lparr>files := (files fs)(outp \<mapsto> [])\<rparr>)"
    using assms(6,7) o c w by (auto simp: process_def Let_def)
  then show ?thesis
    using assms(1,2,3) by (simp add: main_def s3_def at_exit_def)
qed

text \<open>With \<^verbatim>\<open>-f\<close> the older \<^verbatim>\<open>game.iso\<close> is replaced by an empty file.\<close>

theorem main_decompress_witness:
  "get_options [Opt_i ''game.zso'', Opt_f] default_opt
     = (0, default_opt\<lparr>inputFile := ''game.zso'', overwrite := True\<rparr>)
   \<and> files fs_ex ''game.zso'' = Some (magic @ [1, 2, 3])
   \<and> take 4 (magic @ [1, 2, 3]) = magic
   \<and> creatable fs_ex ''game.iso''
   \<and> main env_ex default_opt [Opt_i ''game.zso'', Opt_f] fs_ex
       = Some (0, fs_ex\<lparr>files := (files fs_ex)(''game.iso'' \<mapsto> [])\<rparr>)"
proof -
  let ?s = "default_opt\<lparr>inputFile := ''game.zso'', overwrite := True\<rparr>"
  have 1: "get_options [Opt_i ''game.zso'', Opt_f] default_opt = (0, ?s)"
    by simp
  have 2: "inputFile ?s \<noteq> []"
    by simp
  have 3: "files fs_ex (inputFile ?s) = Some (magic @ [1, 2, 3])"
    by (simp add: fs_ex_def)
  have 4: "take 4 (magic @ [1, 2, 3]) = magic"
    by (simp add: magic_def)
  have 5: "''game.iso'' =
             (if outputFile ?s = [] then rawName (inputFile ?s) @ ''.iso'' else outputFile ?s)"
    by (simp add: default_opt_def rawName_def)
  have 6: "overwrite ?s \<or> files fs_ex ''game.iso'' = None"
    by simp
  have 7: "creatable fs_ex ''game.iso''"
    by (simp add: fs_ex_def)
  from 1 3 4 7 main_decompress [OF 1 2 3 4 5 6 7] show ?thesis
    by simp
qed

text \<open>
  C10 as the claim words it fails when the output path exists and \<^verbatim>\<open>-f\<close> was not
  given: the input starts with ZISO, yet the program returns 1 and leaves every file
  as it was.
\<close>

theorem main_decompress_existing_output_counterexample:
  "files fs_ex ''game.zso'' = Some (magic @ [1, 2, 3])
   \<and> files fs_ex ''game.iso'' = Some [7, 7, 7]
   \<and> main env_ex default_opt [Opt_i ''game.zso''] fs_ex = Some (1, fs_ex)"
  by (simp add: main_def process_def name_output_def detect_format_def default_opt_def
        fs_ex_def magic_def rawName_def at_exit_def Let_def)

end
